theory Spec2Isabelle
  imports Main "HOL-Library.Word"
begin

unbundle bit_operations_syntax

section \<open>Data model\<close>

text \<open>
  The driver \<^verbatim>\<open>AXP2101\<close> of \<^verbatim>\<open>axp2101.py\<close> talks to a power-management IC over an
  I2C bus. Python integers are unbounded and are modelled as \<open>int\<close>; the elements of
  the two-byte \<^verbatim>\<open>bytearray\<close> \<^verbatim>\<open>self._buffer\<close> and the registers of the IC are bytes.
\<close>

type_synonym u8 = "8 word"

text \<open>
  \<^verbatim>\<open>BatteryStatus\<close> is an enum-like class with the three instances
  \<^verbatim>\<open>DISCHARGING\<close>, \<^verbatim>\<open>STANDBY\<close> and \<^verbatim>\<open>CHARGING\<close>; the property \<^verbatim>\<open>battery_status\<close>
  returns one of them or Python's \<^verbatim>\<open>None\<close>, hence a \<open>BatteryStatus option\<close>.
\<close>

datatype BatteryStatus = DISCHARGING | STANDBY | CHARGING

text \<open>The only exception the driver raises itself is \<^verbatim>\<open>ValueError\<close>, with a message.\<close>

datatype error = ValueError string

text \<open>
  One transaction on the bus, as issued through \<^verbatim>\<open>I2CDevice\<close>:
  \<^verbatim>\<open>write(buffer)\<close> with the two bytes register and value, or
  \<^verbatim>\<open>write_then_readinto\<close> sending the register byte and reading the given number of
  bytes back.
\<close>

datatype bus_op = BusWrite u8 u8 | BusWriteThenRead u8 nat

text \<open>
  The state a call works on: the two bytes of \<^verbatim>\<open>self._buffer\<close>, and behind
  \<^verbatim>\<open>self._device\<close> the register file of the IC (\<open>regs\<close>), the registers whose bits
  are cleared by writing a one to them (\<open>w1c\<close>, a property of the chip that no call
  changes; every other register stores the byte written), and the transactions issued
  so far, oldest first (\<open>trace\<close>). The bus itself is outside the driver; it is modelled
  as acknowledging every transaction.
\<close>

record axp2101 =
  buffer0 :: u8
  buffer1 :: u8
  regs :: "u8 \<Rightarrow> u8"
  w1c :: "u8 \<Rightarrow> bool"
  trace :: "bus_op list"

text \<open>
  A call returns its value or the exception it raised, together with the state it left
  behind: a Python exception does not undo the effects before it.
\<close>

type_synonym 'a result = "(error + 'a) \<times> axp2101"

section \<open>The bus device\<close>

text \<open>
  \<^verbatim>\<open>self._device.write(self._buffer)\<close>: the IC takes the first byte as register address
  and the second as the value written to it.
\<close>

definition device_write :: "axp2101 \<Rightarrow> axp2101" where
  "device_write s =
     (let r = buffer0 s; v = buffer1 s
      in s\<lparr>regs := (regs s)(r := (if w1c s r then regs s r AND NOT v else v)),
            trace := trace s @ [BusWrite r v]\<rparr>)"

text \<open>
  \<^verbatim>\<open>self._device.write_then_readinto(self._buffer, self._buffer, out_end=1, ...)\<close>:
  the register address \<^verbatim>\<open>buffer[0]\<close> is sent and \<open>n\<close> bytes are read back, from that
  register and the ones after it.
\<close>

definition device_read :: "nat \<Rightarrow> axp2101 \<Rightarrow> u8 list \<times> axp2101" where
  "device_read n s =
     (let r = buffer0 s
      in (map (\<lambda>i. regs s (r + of_nat i)) [0..<n],
          s\<lparr>trace := trace s @ [BusWriteThenRead r n]\<rparr>))"

text \<open>
  Storing an \<^verbatim>\<open>int\<close> into a \<^verbatim>\<open>bytearray\<close> raises \<^verbatim>\<open>ValueError\<close> unless it is in
  \<^verbatim>\<open>range(0, 256)\<close>.
\<close>

definition is_byte :: "int \<Rightarrow> bool" where
  "is_byte v \<longleftrightarrow> 0 \<le> v \<and> v < 256"

definition byte_error :: error where
  "byte_error = ValueError ''byte must be in range(0, 256)''"

section \<open>Register primitives\<close>

definition read_register8 :: "int \<Rightarrow> axp2101 \<Rightarrow> int result" where
  "read_register8 register s =
     (if \<not> is_byte register then (Inl byte_error, s)
      else
        let s1 = s\<lparr>buffer0 := word_of_int register\<rparr>;
            (bs, s2) = device_read 1 s1;
            s3 = s2\<lparr>buffer0 := bs ! 0\<rparr>
        in (Inr (uint (buffer0 s3)), s3))"

definition read_register14 :: "int \<Rightarrow> axp2101 \<Rightarrow> int result" where
  "read_register14 register s =
     (if \<not> is_byte register then (Inl byte_error, s)
      else
        let s1 = s\<lparr>buffer0 := word_of_int register\<rparr>;
            (bs, s2) = device_read 2 s1;
            s3 = s2\<lparr>buffer0 := bs ! 0, buffer1 := bs ! 1\<rparr>
        in (Inr (push_bit 8 (uint (buffer0 s3) AND 0x3F) OR uint (buffer1 s3)), s3))"

definition write_register8 :: "int \<Rightarrow> int \<Rightarrow> axp2101 \<Rightarrow> unit result" where
  "write_register8 register val s =
     (if \<not> is_byte register then (Inl byte_error, s)
      else
        let s1 = s\<lparr>buffer0 := word_of_int register\<rparr>
        in if \<not> is_byte val then (Inl byte_error, s1)
           else
             let s2 = s1\<lparr>buffer1 := word_of_int val\<rparr>
             in (Inr (), device_write s2))"

definition set_bit_in_register :: "int \<Rightarrow> int \<Rightarrow> bool \<Rightarrow> axp2101 \<Rightarrow> unit result" where
  "set_bit_in_register register bitmask val s =
     (if \<not> is_byte register then (Inl byte_error, s)
      else
        let s1 = s\<lparr>buffer0 := word_of_int register\<rparr>;
            (bs, s2) = device_read 1 s1;
            s3 = s2\<lparr>buffer1 := bs ! 0\<rparr>;
            b = (if val then uint (buffer1 s3) OR bitmask
                 else uint (buffer1 s3) AND NOT bitmask)
        in if \<not> is_byte b then (Inl byte_error, s3)
           else
             let s4 = s3\<lparr>buffer1 := word_of_int b\<rparr>
             in (Inr (), device_write s4))"

section \<open>Power control, key events and battery telemetry\<close>

text \<open>
  \<^verbatim>\<open>__init__\<close>: a fresh two-byte buffer, then the power key interrupt, the battery
  voltage ADC and the four ALDO outputs are enabled.
\<close>

definition init :: "axp2101 \<Rightarrow> unit result" where
  "init s =
     (let s0 = s\<lparr>buffer0 := 0, buffer1 := 0\<rparr>
      in case set_bit_in_register 0x41 0x0C True s0 of
           (Inl e, s1) \<Rightarrow> (Inl e, s1)
         | (Inr _, s1) \<Rightarrow>
             (case set_bit_in_register 0x30 0x01 True s1 of
                (Inl e, s2) \<Rightarrow> (Inl e, s2)
              | (Inr _, s2) \<Rightarrow> set_bit_in_register 0x90 0x0F True s2))"

definition power_off :: "axp2101 \<Rightarrow> unit result" where
  "power_off s = set_bit_in_register 0x10 0x01 True s"

definition power_key_was_pressed :: "axp2101 \<Rightarrow> (bool \<times> bool) result" where
  "power_key_was_pressed s =
     (case read_register8 0x49 s of
        (Inl e, s1) \<Rightarrow> (Inl e, s1)
      | (Inr reg_val, s1) \<Rightarrow>
          let short_press = (reg_val AND 0x08 \<noteq> 0);
              long_press = (reg_val AND 0x04 \<noteq> 0)
          in if short_press \<or> long_press
             then (case write_register8 0x49 0x0C s1 of
                     (Inl e, s2) \<Rightarrow> (Inl e, s2)
                   | (Inr _, s2) \<Rightarrow> (Inr (short_press, long_press), s2))
             else (Inr (short_press, long_press), s1))"

definition is_battery_connected :: "axp2101 \<Rightarrow> bool result" where
  "is_battery_connected s =
     (case read_register8 0x00 s of
        (Inl e, s1) \<Rightarrow> (Inl e, s1)
      | (Inr reg_val, s1) \<Rightarrow> (Inr (reg_val AND 0x08 \<noteq> 0), s1))"

definition battery_level :: "axp2101 \<Rightarrow> int result" where
  "battery_level s = read_register8 0xA4 s"

definition battery_voltage :: "axp2101 \<Rightarrow> int result" where
  "battery_voltage s = read_register14 0x34 s"

definition battery_charging_enabled :: "axp2101 \<Rightarrow> bool result" where
  "battery_charging_enabled s =
     (case read_register8 0x18 s of
        (Inl e, s1) \<Rightarrow> (Inl e, s1)
      | (Inr reg_val, s1) \<Rightarrow> (Inr (reg_val AND 0x02 \<noteq> 0), s1))"

text \<open>
  The setter's argument is a \<open>bool\<close> here, so the \<^verbatim>\<open>isinstance\<close> test of the source
  always succeeds and its \<^verbatim>\<open>ValueError\<close> branch has no counterpart.
\<close>

definition battery_charging_enabled_set :: "bool \<Rightarrow> axp2101 \<Rightarrow> unit result" where
  "battery_charging_enabled_set enabled s = set_bit_in_register 0x18 0x02 enabled s"

definition battery_status :: "axp2101 \<Rightarrow> BatteryStatus option result" where
  "battery_status s =
     (case is_battery_connected s of
        (Inl e, s1) \<Rightarrow> (Inl e, s1)
      | (Inr connected, s1) \<Rightarrow>
          if \<not> connected then (Inr None, s1)
          else
            (case read_register8 0x01 s1 of
               (Inl e, s2) \<Rightarrow> (Inl e, s2)
             | (Inr r, s2) \<Rightarrow>
                 let reg_val = drop_bit 5 (r AND 0x60)
                 in if reg_val = 0 then (Inr (Some STANDBY), s2)
                    else if reg_val = 1 then (Inr (Some CHARGING), s2)
                    else if reg_val = 2 then (Inr (Some DISCHARGING), s2)
                    else (Inr None, s2)))"

section \<open>Regulators\<close>

definition set_ldo :: "int \<Rightarrow> int \<Rightarrow> axp2101 \<Rightarrow> unit result" where
  "set_ldo num voltage s =
     (if 0 \<le> num \<and> num \<le> 5 then
        let reg_volt = num + 0x92;
            reg90bit = push_bit (nat num) (1::int)
        in if 0 \<le> voltage \<and> voltage \<le> 3500 then
             if voltage \<ge> 500 then
               let reg_value = (voltage - 500) div 100
               in (case write_register8 reg_volt reg_value s of
                     (Inl e, s1) \<Rightarrow> (Inl e, s1)
                   | (Inr _, s1) \<Rightarrow> set_bit_in_register 0x90 reg90bit True s1)
             else set_bit_in_register 0x90 reg90bit False s
           else (Inl (ValueError ''LDO voltage out of range. Allowed range 0-3500 mV''), s)
      else (Inl (ValueError ''Invalid LDO number''), s))"

definition get_ldo :: "int \<Rightarrow> axp2101 \<Rightarrow> int result" where
  "get_ldo num s =
     (if 0 \<le> num \<and> num \<le> 5 then
        let reg_volt = num + 0x92;
            reg90bit = push_bit (nat num) (1::int)
        in (case read_register8 0x90 s of
              (Inl e, s1) \<Rightarrow> (Inl e, s1)
            | (Inr reg90, s1) \<Rightarrow>
                if reg90 AND reg90bit \<noteq> 0 then
                  (case read_register8 reg_volt s1 of
                     (Inl e, s2) \<Rightarrow> (Inl e, s2)
                   | (Inr reg_value, s2) \<Rightarrow> (Inr (reg_value * 100 + 500), s2))
                else (Inr 0, s1))
      else (Inl (ValueError ''Invalid LDO number''), s))"

definition set_dldo :: "int \<Rightarrow> int \<Rightarrow> axp2101 \<Rightarrow> unit result" where
  "set_dldo num voltage s =
     (if 1 \<le> num \<and> num \<le> 2 then
        let reg_volt = (if num = 1 then 0x99 else 0x9A);
            max_volt = (if num = 1 then 3400 else 1400);
            reg_enable = (if num = 1 then 0x90 else 0x91);
            reg_enable_bit = (if num = 1 then 0x80 else 0x01)
        in if 0 \<le> voltage \<and> voltage \<le> max_volt then
             if voltage \<ge> 500 then
               let step_volt = (if num = 1 then 100 else 50);
                   reg_value = (voltage - 500) div step_volt
               in (case write_register8 reg_volt reg_value s of
                     (Inl e, s1) \<Rightarrow> (Inl e, s1)
                   | (Inr _, s1) \<Rightarrow> set_bit_in_register reg_enable reg_enable_bit True s1)
             else set_bit_in_register reg_enable reg_enable_bit False s
           else (Inl (ValueError (if num = 1
                   then ''LDO voltage out of range. Allowed range 0-3400 mV''
                   else ''LDO voltage out of range. Allowed range 0-1400 mV'')), s)
      else (Inl (ValueError ''Invald DLDO number''), s))"

definition get_dldo :: "int \<Rightarrow> axp2101 \<Rightarrow> int result" where
  "get_dldo num s =
     (if 1 \<le> num \<and> num \<le> 2 then
        let reg_volt = (if num = 1 then 0x99 else 0x9A);
            reg_enable = (if num = 1 then 0x90 else 0x91);
            reg_enable_bit = (if num = 1 then 0x80 else 0x01)
        in (case read_register8 reg_enable s of
              (Inl e, s1) \<Rightarrow> (Inl e, s1)
            | (Inr reg_enable_val, s1) \<Rightarrow>
                if reg_enable_val AND reg_enable_bit \<noteq> 0 then
                  let step_volt = (if num = 1 then 100 else 50)
                  in (case read_register8 reg_volt s1 of
                        (Inl e, s2) \<Rightarrow> (Inl e, s2)
                      | (Inr reg_value, s2) \<Rightarrow> (Inr (reg_value * step_volt + 500), s2))
                else (Inr 0, s1))
      else (Inl (ValueError ''Invald DLDO number''), s))"

text \<open>
  The eight regulator outputs, one per pair of properties
  \<^verbatim>\<open>_aldo1_voltage_setpoint\<close> ... \<^verbatim>\<open>_dldo2_voltage_setpoint\<close>. The setter and the
  getter of each property call the routine above with the channel's number.
\<close>

datatype channel = ALDO1 | ALDO2 | ALDO3 | ALDO4 | BLDO1 | BLDO2 | DLDO1 | DLDO2

fun voltage_setpoint_set :: "channel \<Rightarrow> int \<Rightarrow> axp2101 \<Rightarrow> unit result" where
  "voltage_setpoint_set ALDO1 voltage s = set_ldo 0 voltage s"
| "voltage_setpoint_set ALDO2 voltage s = set_ldo 1 voltage s"
| "voltage_setpoint_set ALDO3 voltage s = set_ldo 2 voltage s"
| "voltage_setpoint_set ALDO4 voltage s = set_ldo 3 voltage s"
| "voltage_setpoint_set BLDO1 voltage s = set_ldo 4 voltage s"
| "voltage_setpoint_set BLDO2 voltage s = set_ldo 5 voltage s"
| "voltage_setpoint_set DLDO1 voltage s = set_dldo 1 voltage s"
| "voltage_setpoint_set DLDO2 voltage s = set_dldo 2 voltage s"

fun voltage_setpoint_get :: "channel \<Rightarrow> axp2101 \<Rightarrow> int result" where
  "voltage_setpoint_get ALDO1 s = get_ldo 0 s"
| "voltage_setpoint_get ALDO2 s = get_ldo 1 s"
| "voltage_setpoint_get ALDO3 s = get_ldo 2 s"
| "voltage_setpoint_get ALDO4 s = get_ldo 3 s"
| "voltage_setpoint_get BLDO1 s = get_ldo 4 s"
| "voltage_setpoint_get BLDO2 s = get_ldo 5 s"
| "voltage_setpoint_get DLDO1 s = get_dldo 1 s"
| "voltage_setpoint_get DLDO2 s = get_dldo 2 s"

text \<open>
  The per-channel constants as the specification tabulates them (the source has them
  inline in \<^verbatim>\<open>__set_ldo\<close>, \<^verbatim>\<open>__get_ldo\<close>, \<^verbatim>\<open>__set_dldo\<close> and \<^verbatim>\<open>__get_dldo\<close>):
  the highest voltage accepted, the voltage step, the register holding the voltage
  code, and the register and mask of the enable bit.
\<close>

fun channelMax :: "channel \<Rightarrow> int" where
  "channelMax DLDO1 = 3400"
| "channelMax DLDO2 = 1400"
| "channelMax _ = 3500"

fun channelStep :: "channel \<Rightarrow> int" where
  "channelStep DLDO2 = 50"
| "channelStep _ = 100"

fun channelVoltReg :: "channel \<Rightarrow> u8" where
  "channelVoltReg ALDO1 = 0x92"
| "channelVoltReg ALDO2 = 0x93"
| "channelVoltReg ALDO3 = 0x94"
| "channelVoltReg ALDO4 = 0x95"
| "channelVoltReg BLDO1 = 0x96"
| "channelVoltReg BLDO2 = 0x97"
| "channelVoltReg DLDO1 = 0x99"
| "channelVoltReg DLDO2 = 0x9A"

fun channelEnableReg :: "channel \<Rightarrow> u8" where
  "channelEnableReg DLDO2 = 0x91"
| "channelEnableReg _ = 0x90"

fun channelEnableMask :: "channel \<Rightarrow> u8" where
  "channelEnableMask ALDO1 = 0x01"
| "channelEnableMask ALDO2 = 0x02"
| "channelEnableMask ALDO3 = 0x04"
| "channelEnableMask ALDO4 = 0x08"
| "channelEnableMask BLDO1 = 0x10"
| "channelEnableMask BLDO2 = 0x20"
| "channelEnableMask DLDO1 = 0x80"
| "channelEnableMask DLDO2 = 0x01"

text \<open>
  Division truncating toward zero, as the specification words the voltage code
  (the source computes it with Python's flooring \<^verbatim>\<open>//\<close>).
\<close>

definition trunc_div :: "int \<Rightarrow> int \<Rightarrow> int" where
  "trunc_div a b = sgn a * sgn b * (\<bar>a\<bar> div \<bar>b\<bar>)"

section \<open>Example states\<close>

text \<open>
  A chip whose registers all read zero, with the interrupt status register \<open>0x49\<close>
  clearing the bits written as one, and the same chip with one register preset.
\<close>

definition ic_reset :: axp2101 where
  "ic_reset = \<lparr>buffer0 = 0, buffer1 = 0, regs = (\<lambda>_. 0), w1c = (\<lambda>r. r = 0x49), trace = []\<rparr>"

definition with_reg :: "u8 \<Rightarrow> u8 \<Rightarrow> axp2101 \<Rightarrow> axp2101" where
  "with_reg r v s = s\<lparr>regs := (regs s)(r := v)\<rparr>"

section \<open>Facts about the bus device and the register primitives\<close>

lemma regs_device_write:
  "regs (device_write s) =
     (regs s)(buffer0 s := (if w1c s (buffer0 s) then regs s (buffer0 s) AND NOT (buffer1 s) else buffer1 s))"
  by (simp add: device_write_def Let_def)

lemma trace_device_write: "trace (device_write s) = trace s @ [BusWrite (buffer0 s) (buffer1 s)]"
  by (simp add: device_write_def Let_def)

lemma w1c_device_write: "w1c (device_write s) = w1c s"
  by (simp add: device_write_def Let_def)

lemma read_register8_byte:
  "is_byte r \<Longrightarrow> read_register8 r s =
     (Inr (uint (regs s (word_of_int r))),
      s\<lparr>buffer0 := regs s (word_of_int r),
        trace := trace s @ [BusWriteThenRead (word_of_int r) 1]\<rparr>)"
  by (simp add: read_register8_def device_read_def Let_def)

lemma read_register14_byte:
  "is_byte r \<Longrightarrow> read_register14 r s =
     (Inr (push_bit 8 (uint (regs s (word_of_int r)) AND 0x3F) OR uint (regs s (word_of_int r + 1))),
      s\<lparr>buffer0 := regs s (word_of_int r), buffer1 := regs s (word_of_int r + 1),
        trace := trace s @ [BusWriteThenRead (word_of_int r) 2]\<rparr>)"
  by (simp add: read_register14_def device_read_def Let_def numeral_2_eq_2 upt_rec)

lemma write_register8_byte:
  "is_byte r \<Longrightarrow> is_byte v \<Longrightarrow> write_register8 r v s =
     (Inr (), device_write (s\<lparr>buffer0 := word_of_int r, buffer1 := word_of_int v\<rparr>))"
  by (simp add: write_register8_def Let_def)

lemma uint_is_byte: "is_byte (uint (w::u8))"
  using uint_lt2p [of w] by (simp add: is_byte_def)

lemma and_not_is_byte: "is_byte (uint (w::u8) AND NOT m)"
proof -
  have "0 \<le> uint w AND NOT m" by (simp add: AND_lower)
  moreover have "uint w AND NOT m \<le> uint w" by (simp add: AND_upper1)
  moreover have "uint w < 256" using uint_lt2p [of w] by simp
  ultimately show ?thesis by (simp add: is_byte_def)
qed

lemma or_is_byte: "is_byte m \<Longrightarrow> is_byte (uint (w::u8) OR m)"
proof -
  assume m: "is_byte m"
  have w: "0 \<le> uint w" "uint w < 2 ^ 8" using uint_lt2p [of w] by simp_all
  from m have m': "0 \<le> m" "m < 2 ^ 8" by (simp_all add: is_byte_def)
  have "uint w OR m < 2 ^ 8" using w m' by (intro OR_upper) simp_all
  moreover have "0 \<le> uint w OR m" using w m' by simp
  ultimately show ?thesis by (simp add: is_byte_def)
qed

lemma woi_and_not: "word_of_int (uint (w::u8) AND NOT m) = w AND NOT (word_of_int m)"
  by (rule bit_word_eqI) (simp add: bit_simps)

lemma woi_or: "word_of_int (uint (w::u8) OR m) = w OR (word_of_int m)"
  by (rule bit_word_eqI) (simp add: bit_simps)

lemma set_bit_in_register_byte:
  "is_byte r \<Longrightarrow> set_bit_in_register r m val s =
     (let a = word_of_int r;
          b = (if val then uint (regs s a) OR m else uint (regs s a) AND NOT m);
          s3 = s\<lparr>buffer0 := a, buffer1 := regs s a, trace := trace s @ [BusWriteThenRead a 1]\<rparr>
      in if is_byte b then (Inr (), device_write (s3\<lparr>buffer1 := word_of_int b\<rparr>))
         else (Inl byte_error, s3))"
  by (simp add: set_bit_in_register_def device_read_def Let_def)

lemma set_bit_in_register_clear:
  "is_byte r \<Longrightarrow> set_bit_in_register r m False s =
     (Inr (), device_write (s\<lparr>buffer0 := word_of_int r,
        trace := trace s @ [BusWriteThenRead (word_of_int r) 1],
        buffer1 := regs s (word_of_int r) AND NOT (word_of_int m)\<rparr>))"
  by (simp add: set_bit_in_register_byte Let_def and_not_is_byte woi_and_not)

lemma set_bit_in_register_set:
  "is_byte r \<Longrightarrow> is_byte m \<Longrightarrow> set_bit_in_register r m True s =
     (Inr (), device_write (s\<lparr>buffer0 := word_of_int r,
        trace := trace s @ [BusWriteThenRead (word_of_int r) 1],
        buffer1 := regs s (word_of_int r) OR word_of_int m\<rparr>))"
  by (simp add: set_bit_in_register_byte Let_def or_is_byte woi_or)

lemma code_is_byte: "500 \<le> v \<Longrightarrow> v \<le> 3500 \<Longrightarrow> is_byte ((v - 500) div 100) \<and> is_byte ((v - 500) div 50)"
  unfolding is_byte_def by auto

lemma is_byte_numeral [simp]: "is_byte (numeral k) \<longleftrightarrow> (numeral k :: int) < 256" "is_byte 0" "is_byte 1"
  by (simp_all add: is_byte_def)

lemma set_enabled_fst:
  assumes "500 \<le> v" "v \<le> channelMax C"
  shows "fst (voltage_setpoint_set C v s) = Inr ()"
  using assms code_is_byte [of v]
  by (cases C) (simp_all add: set_ldo_def set_dldo_def Let_def write_register8_byte
      set_bit_in_register_set)

lemma set_enabled_trace:
  assumes "500 \<le> v" "v \<le> channelMax C"
  shows "trace (snd (voltage_setpoint_set C v s)) =
     trace s @ [BusWrite (channelVoltReg C) (word_of_int ((v - 500) div channelStep C)),
                BusWriteThenRead (channelEnableReg C) 1,
                BusWrite (channelEnableReg C) (regs s (channelEnableReg C) OR channelEnableMask C)]"
  using assms code_is_byte [of v]
  by (cases C) (simp_all add: set_ldo_def set_dldo_def Let_def write_register8_byte
      set_bit_in_register_set regs_device_write trace_device_write)

lemma set_enabled_regs:
  assumes "500 \<le> v" "v \<le> channelMax C"
    "\<not> w1c s (channelVoltReg C)" "\<not> w1c s (channelEnableReg C)"
  shows "regs (snd (voltage_setpoint_set C v s)) =
     (regs s)(channelVoltReg C := word_of_int ((v - 500) div channelStep C),
              channelEnableReg C := regs s (channelEnableReg C) OR channelEnableMask C)"
  using assms code_is_byte [of v]
  by (cases C) (simp_all add: set_ldo_def set_dldo_def Let_def write_register8_byte
      set_bit_in_register_set regs_device_write w1c_device_write)

lemma uint_and_mask_eq_0: "(uint (w::u8) AND uint (m::u8) = 0) \<longleftrightarrow> (w AND m = 0)"
proof -
  have "uint (w AND m) = uint w AND uint m" by (simp add: uint_and)
  then show ?thesis by (metis uint_0_iff)
qed

lemma get_fst:
  "fst (voltage_setpoint_get C s) =
     Inr (if regs s (channelEnableReg C) AND channelEnableMask C \<noteq> 0
          then uint (regs s (channelVoltReg C)) * channelStep C + 500 else 0)"
  using uint_and_mask_eq_0 [of "regs s 0x90" 1] uint_and_mask_eq_0 [of "regs s 0x90" 2]
    uint_and_mask_eq_0 [of "regs s 0x90" 4] uint_and_mask_eq_0 [of "regs s 0x90" 8]
    uint_and_mask_eq_0 [of "regs s 0x90" 16] uint_and_mask_eq_0 [of "regs s 0x90" 32]
    uint_and_mask_eq_0 [of "regs s 0x90" 128] uint_and_mask_eq_0 [of "regs s 0x91" 1]
  by (cases C) (simp_all add: get_ldo_def get_dldo_def Let_def read_register8_byte)

lemma get_trace:
  "trace (snd (voltage_setpoint_get C s)) =
     trace s @ BusWriteThenRead (channelEnableReg C) 1 #
       (if regs s (channelEnableReg C) AND channelEnableMask C \<noteq> 0
        then [BusWriteThenRead (channelVoltReg C) 1] else [])"
  using uint_and_mask_eq_0 [of "regs s 0x90" 1] uint_and_mask_eq_0 [of "regs s 0x90" 2]
    uint_and_mask_eq_0 [of "regs s 0x90" 4] uint_and_mask_eq_0 [of "regs s 0x90" 8]
    uint_and_mask_eq_0 [of "regs s 0x90" 16] uint_and_mask_eq_0 [of "regs s 0x90" 32]
    uint_and_mask_eq_0 [of "regs s 0x90" 128] uint_and_mask_eq_0 [of "regs s 0x91" 1]
  by (cases C) (simp_all add: get_ldo_def get_dldo_def Let_def read_register8_byte)

lemma set_disabled:
  assumes "0 \<le> v" "v < 500"
  shows "voltage_setpoint_set C v s =
     set_bit_in_register (uint (channelEnableReg C)) (uint (channelEnableMask C)) False s"
  using assms by (cases C) (simp_all add: set_ldo_def set_dldo_def Let_def)

lemma set_bit_clear_fst: "is_byte r \<Longrightarrow> fst (set_bit_in_register r m False s) = Inr ()"
  by (simp add: set_bit_in_register_clear)

lemma set_bit_clear_trace:
  "is_byte r \<Longrightarrow> trace (snd (set_bit_in_register r m False s)) =
     trace s @ [BusWriteThenRead (word_of_int r) 1,
                BusWrite (word_of_int r) (regs s (word_of_int r) AND NOT (word_of_int m))]"
  by (simp add: set_bit_in_register_clear trace_device_write)

lemma set_bit_clear_regs:
  "is_byte r \<Longrightarrow> regs (snd (set_bit_in_register r m False s)) =
     (regs s)(word_of_int r :=
        (if w1c s (word_of_int r)
         then regs s (word_of_int r) AND NOT (regs s (word_of_int r) AND NOT (word_of_int m))
         else regs s (word_of_int r) AND NOT (word_of_int m)))"
  by (simp add: set_bit_in_register_clear regs_device_write)

section \<open>Reading the 14-bit register\<close>

lemma compose14_bound:
  "0 \<le> push_bit 8 (uint (a::u8) AND 0x3F) OR uint (b::u8) \<and>
   push_bit 8 (uint a AND 0x3F) OR uint b < 0x4000"
proof -
  have a0: "0 \<le> uint a AND 0x3F" by (simp add: AND_lower)
  have a1: "uint a AND 0x3F \<le> 0x3F" by (rule AND_upper2) simp
  have p: "push_bit 8 (uint a AND 0x3F) = (uint a AND 0x3F) * 256" by (simp add: push_bit_eq_mult)
  have b: "0 \<le> uint b" "uint b < 2 ^ 14" using uint_lt2p [of b] by simp_all
  have "push_bit 8 (uint a AND 0x3F) OR uint b < 2 ^ 14"
    using a0 a1 b p by (intro OR_upper) simp_all
  moreover have "0 \<le> push_bit 8 (uint a AND 0x3F) OR uint b" using a0 b p by simp
  ultimately show ?thesis by simp
qed

text \<open>
  Claim C7. For a register address that fits a byte, \<^verbatim>\<open>_read_register14\<close> returns
  \<^verbatim>\<open>(byte0 & 0x3F) << 8 | byte1\<close> of the two bytes read from the register and its
  successor; this value is at least 0 and below \<open>0x4000\<close>; and when the two bytes are
  \<open>0xFF\<close> and \<open>0xAB\<close> the result is \<open>0x3FAB\<close>: the two upper bits of the first byte
  are discarded.
\<close>

theorem read_register14_composition:
  assumes "is_byte register"
  shows "fst (read_register14 register s) =
           Inr (push_bit 8 (uint (regs s (word_of_int register)) AND 0x3F)
                OR uint (regs s (word_of_int register + 1)))
       \<and> (\<exists>v. fst (read_register14 register s) = Inr v \<and> 0 \<le> v \<and> v < 0x4000)
       \<and> (regs s (word_of_int register) = 0xFF \<and> regs s (word_of_int register + 1) = 0xAB
            \<longrightarrow> fst (read_register14 register s) = Inr 0x3FAB)"
  using assms compose14_bound [of "regs s (word_of_int register)" "regs s (word_of_int register + 1)"]
  by (simp add: read_register14_byte)

theorem read_register14_composition_witness:
  "is_byte 0x34
   \<and> regs (with_reg 0x34 0xFF (with_reg 0x35 0xAB ic_reset)) (word_of_int 0x34) = 0xFF
   \<and> regs (with_reg 0x34 0xFF (with_reg 0x35 0xAB ic_reset)) (word_of_int 0x34 + 1) = 0xAB
   \<and> fst (read_register14 0x34 (with_reg 0x34 0xFF (with_reg 0x35 0xAB ic_reset))) = Inr 0x3FAB
   \<and> fst (battery_voltage (with_reg 0x34 0xFF (with_reg 0x35 0xAB ic_reset))) = Inr 0x3FAB"
  using read_register14_composition [of "0x34" "with_reg 0x34 0xFF (with_reg 0x35 0xAB ic_reset)"]
  by (simp add: with_reg_def ic_reset_def battery_voltage_def)

section \<open>Battery telemetry\<close>

text \<open>
  Claim C8, as amended. \<^verbatim>\<open>battery_level\<close> returns the byte of register \<open>0xA4\<close> as it
  is read, without clamping: a value between 0 and 255.
\<close>

theorem battery_level_raw_byte:
  "fst (battery_level s) = Inr (uint (regs s 0xA4))
   \<and> 0 \<le> uint (regs s 0xA4) \<and> uint (regs s 0xA4) \<le> 255"
  using uint_is_byte [of "regs s 0xA4"]
  by (simp add: battery_level_def read_register8_byte is_byte_def)

text \<open>
  Claim C8 as stated fails: with \<open>0xFF\<close> in register \<open>0xA4\<close> the property returns 255,
  which is above 100.
\<close>

theorem battery_level_above_100:
  "fst (battery_level (with_reg 0xA4 0xFF ic_reset)) = Inr 255 \<and> \<not> (255 \<le> (100::int))"
  by (simp add: battery_level_def read_register8_byte with_reg_def ic_reset_def)

lemma status_code_range:
  "drop_bit 5 (uint (w::u8) AND 0x60) \<in> {0, 1, 2, 3}"
proof -
  define x where "x = uint w AND 0x60"
  have x0: "0 \<le> x" unfolding x_def by (simp add: AND_lower)
  have x1: "x \<le> 0x60" unfolding x_def by (rule AND_upper2) simp
  have "drop_bit 5 x = x div 2 ^ 5" by (rule drop_bit_eq_div)
  then have d: "drop_bit 5 x = x div 32" by simp
  have "x div 32 \<in> {0, 1, 2, 3}" using x0 x1 by auto
  with d show ?thesis unfolding x_def by simp
qed

text \<open>
  Claim C5. \<^verbatim>\<open>battery_status\<close> never raises. It returns \<^verbatim>\<open>None\<close> when bit \<open>0x08\<close> of
  register \<open>0x00\<close> is clear (no battery connected), and then the only transaction on
  the bus is the read of register \<open>0x00\<close>: register \<open>0x01\<close> is not consulted. Otherwise
  it takes \<^verbatim>\<open>(reg 0x01 & 0b01100000) >> 5\<close>, a code between 0 and 3, and returns
  \<^verbatim>\<open>STANDBY\<close> for 0, \<^verbatim>\<open>CHARGING\<close> for 1, \<^verbatim>\<open>DISCHARGING\<close> for 2 and \<^verbatim>\<open>None\<close> for 3.
\<close>

theorem battery_status_decoding:
  "fst (battery_status s) =
     Inr (if uint (regs s 0x00) AND 0x08 = 0 then None
          else if drop_bit 5 (uint (regs s 0x01) AND 0x60) = 0 then Some STANDBY
          else if drop_bit 5 (uint (regs s 0x01) AND 0x60) = 1 then Some CHARGING
          else if drop_bit 5 (uint (regs s 0x01) AND 0x60) = 2 then Some DISCHARGING
          else None)
   \<and> drop_bit 5 (uint (regs s 0x01) AND 0x60) \<in> {0, 1, 2, 3}
   \<and> (uint (regs s 0x00) AND 0x08 = 0 \<longrightarrow>
        trace (snd (battery_status s)) = trace s @ [BusWriteThenRead 0x00 1])
   \<and> fst (is_battery_connected s) = Inr (uint (regs s 0x00) AND 0x08 \<noteq> 0)"
  using status_code_range [of "regs s 0x01"]
  by (simp add: battery_status_def is_battery_connected_def read_register8_byte Let_def)

theorem battery_status_decoding_witness:
  "uint (regs (with_reg 0x01 0x20 ic_reset) 0x00) AND 0x08 = 0
   \<and> battery_status (with_reg 0x01 0x20 ic_reset) =
       (Inr None, (with_reg 0x01 0x20 ic_reset)\<lparr>trace := [BusWriteThenRead 0x00 1]\<rparr>)
   \<and> fst (battery_status (with_reg 0x00 0x08 (with_reg 0x01 0x20 ic_reset))) = Inr (Some CHARGING)"
  using battery_status_decoding [of "with_reg 0x01 0x20 ic_reset"]
  by (simp add: battery_status_def is_battery_connected_def read_register8_byte Let_def
      with_reg_def ic_reset_def)

section \<open>Power key events\<close>

lemma w1c_clear_press_bits:
  "uint ((w::u8) AND NOT 0x0C) AND 0x08 = 0 \<and> uint (w AND NOT 0x0C) AND 0x04 = 0"
proof -
  have "(w AND NOT 0x0C) AND 0x08 = w AND (NOT 0x0C AND 0x08)" by (simp only: and.assoc)
  then have a: "(w AND NOT 0x0C) AND 0x08 = 0" by simp
  have "(w AND NOT 0x0C) AND 0x04 = w AND (NOT 0x0C AND 0x04)" by (simp only: and.assoc)
  then have b: "(w AND NOT 0x0C) AND 0x04 = 0" by simp
  show ?thesis
    using a b uint_and_mask_eq_0 [of "w AND NOT 0x0C" 8] uint_and_mask_eq_0 [of "w AND NOT 0x0C" 4]
    by simp
qed

text \<open>
  Without write-1-to-clear semantics the second poll would see the byte \<open>0x0C\<close> just
  stored and report both presses.
\<close>

lemma power_key_plain_store:
  "fst (power_key_was_pressed (snd (power_key_was_pressed
      ((with_reg 0x49 0x08 ic_reset)\<lparr>w1c := (\<lambda>_. False)\<rparr>)))) = Inr (True, True)"
  by (simp add: power_key_was_pressed_def read_register8_byte write_register8_byte Let_def
      regs_device_write trace_device_write with_reg_def ic_reset_def)

text \<open>
  Claim C6. \<^verbatim>\<open>power_key_was_pressed\<close> reads register \<open>0x49\<close> and reports the short
  press as bit \<open>0x08\<close> and the long press as bit \<open>0x04\<close> of the byte read; after the
  read it writes \<open>0x0C\<close> to register \<open>0x49\<close> exactly when one of the two flags is set,
  and issues nothing else; and when register \<open>0x49\<close> is write-1-to-clear, polling again
  right away returns \<^verbatim>\<open>(False, False)\<close>.
\<close>

theorem power_key_was_pressed_latch:
  "fst (power_key_was_pressed s) =
     Inr (uint (regs s 0x49) AND 0x08 \<noteq> 0, uint (regs s 0x49) AND 0x04 \<noteq> 0)
   \<and> trace (snd (power_key_was_pressed s)) =
       trace s @ BusWriteThenRead 0x49 1 #
         (if uint (regs s 0x49) AND 0x08 \<noteq> 0 \<or> uint (regs s 0x49) AND 0x04 \<noteq> 0
          then [BusWrite 0x49 0x0C] else [])
   \<and> (w1c s 0x49 \<longrightarrow>
        fst (power_key_was_pressed (snd (power_key_was_pressed s))) = Inr (False, False))"
  using w1c_clear_press_bits [of "regs s 0x49"]
  by (simp add: power_key_was_pressed_def read_register8_byte write_register8_byte Let_def
      regs_device_write trace_device_write)

theorem power_key_was_pressed_latch_witness:
  "w1c (with_reg 0x49 0x08 ic_reset) 0x49
   \<and> fst (power_key_was_pressed (with_reg 0x49 0x08 ic_reset)) = Inr (True, False)
   \<and> trace (snd (power_key_was_pressed (with_reg 0x49 0x08 ic_reset))) =
       [BusWriteThenRead 0x49 1, BusWrite 0x49 0x0C]
   \<and> fst (power_key_was_pressed (snd (power_key_was_pressed (with_reg 0x49 0x08 ic_reset)))) =
       Inr (False, False)"
  using power_key_was_pressed_latch [of "with_reg 0x49 0x08 ic_reset"]
  by (simp add: with_reg_def ic_reset_def)

section \<open>Regulator round trip\<close>

lemma volt_reg_not_enable_reg: "channelVoltReg C \<noteq> channelEnableReg C'"
  by (cases C; cases C') simp_all

lemma enable_mask_nonzero: "channelEnableMask C \<noteq> 0"
  by (cases C) simp_all

lemma or_and_same: "((w::u8) OR m) AND m = m"
  by (rule bit_word_eqI) (auto simp add: bit_simps)

lemma trunc_div_nonneg: "0 \<le> a \<Longrightarrow> 0 < b \<Longrightarrow> trunc_div a b = a div b"
  by (cases "a = 0") (simp_all add: trunc_div_def)

lemma channelStep_pos: "0 < channelStep C"
  by (cases C) simp_all

lemma enable_bit_after_set:
  "regs s' = (regs s)(channelVoltReg C := word_of_int ((v - 500) div channelStep C),
              channelEnableReg C := regs s (channelEnableReg C) OR channelEnableMask C) \<Longrightarrow>
   regs s' (channelEnableReg C) AND channelEnableMask C \<noteq> 0"
  by (simp add: or_and_same enable_mask_nonzero)

lemma stepped_voltage_decodes:
  "v = 500 + k * channelStep C \<Longrightarrow> (v - 500) div channelStep C * channelStep C + 500 = v"
  using channelStep_pos [of C] by simp

lemma channelMax_le: "channelMax C \<le> 3500"
  by (cases C) simp_all

lemma channel_code_byte:
  assumes "500 \<le> v" "v \<le> channelMax C"
  shows "uint (word_of_int ((v - 500) div channelStep C) :: u8) = (v - 500) div channelStep C"
proof -
  have "v \<le> 3500" using assms(2) channelMax_le [of C] by simp
  then have "is_byte ((v - 500) div channelStep C)"
    using code_is_byte [of v] assms(1) by (cases C) simp_all
  then show ?thesis
    by (simp add: is_byte_def uint_word_of_int take_bit_int_eq_self)
qed

lemma stored_code_after_set:
  assumes "500 \<le> v" and "v \<le> channelMax C"
    and r: "regs s' = (regs s)(channelVoltReg C := word_of_int ((v - 500) div channelStep C),
              channelEnableReg C := regs s (channelEnableReg C) OR channelEnableMask C)"
  shows "uint (regs s' (channelVoltReg C)) = (v - 500) div channelStep C"
  using assms(1,2) by (simp add: r volt_reg_not_enable_reg channel_code_byte)

lemma get_when_enabled:
  assumes en: "regs s' (channelEnableReg C) AND channelEnableMask C \<noteq> 0"
  shows "fst (voltage_setpoint_get C s') =
           Inr (uint (regs s' (channelVoltReg C)) * channelStep C + 500)"
  using en by (simp add: get_fst)

lemma and_not_and_same: "((w::u8) AND NOT m) AND m = 0"
  by (rule bit_word_eqI) (auto simp add: bit_simps)

text \<open>
  Claim C1. For every channel \<open>C\<close> and every voltage \<open>v\<close> from 500 to the channel's
  maximum with \<open>v = 500 + k * step\<close>, on a chip whose voltage and enable registers of
  \<open>C\<close> store what is written: setting \<open>v\<close> succeeds; the voltage register then holds
  \<open>(v - 500)\<close> divided by the step truncated toward zero, which is the flooring division
  the code performs; reading the channel back decodes the register as
  \<open>code * step + 500\<close>; and that is exactly \<open>v\<close>.
\<close>

theorem ldo_round_trip:
  assumes "500 \<le> v" and "v \<le> channelMax C" and "v = 500 + k * channelStep C"
    and "\<not> w1c s (channelVoltReg C)" and "\<not> w1c s (channelEnableReg C)"
  shows "fst (voltage_setpoint_set C v s) = Inr ()
     \<and> uint (regs (snd (voltage_setpoint_set C v s)) (channelVoltReg C)) =
         trunc_div (v - 500) (channelStep C)
     \<and> trunc_div (v - 500) (channelStep C) = (v - 500) div channelStep C
     \<and> fst (voltage_setpoint_get C (snd (voltage_setpoint_set C v s))) =
         Inr (uint (regs (snd (voltage_setpoint_set C v s)) (channelVoltReg C)) * channelStep C + 500)
     \<and> fst (voltage_setpoint_get C (snd (voltage_setpoint_set C v s))) = Inr v"
proof -
  define s' where "s' = snd (voltage_setpoint_set C v s)"
  define code where "code = (v - 500) div channelStep C"
  have ok: "fst (voltage_setpoint_set C v s) = Inr ()"
    using assms(1,2) by (rule set_enabled_fst)
  have td: "trunc_div (v - 500) (channelStep C) = code"
    unfolding code_def using assms(1) channelStep_pos [of C] by (simp add: trunc_div_nonneg)
  have r: "regs s' = (regs s)(channelVoltReg C := word_of_int ((v - 500) div channelStep C),
              channelEnableReg C := regs s (channelEnableReg C) OR channelEnableMask C)"
    unfolding s'_def using assms(1,2,4,5) by (rule set_enabled_regs)
  have stored: "uint (regs s' (channelVoltReg C)) = code"
    unfolding code_def using assms(1,2) r by (rule stored_code_after_set)
  have en: "regs s' (channelEnableReg C) AND channelEnableMask C \<noteq> 0"
    using r by (rule enable_bit_after_set)
  have g: "fst (voltage_setpoint_get C s') = Inr (uint (regs s' (channelVoltReg C)) * channelStep C + 500)"
    using en by (rule get_when_enabled)
  have rt: "code * channelStep C + 500 = v"
    unfolding code_def using assms(3) by (rule stepped_voltage_decodes)
  have g': "fst (voltage_setpoint_get C s') = Inr v"
    unfolding g stored rt ..
  show ?thesis
    unfolding s'_def [symmetric] code_def [symmetric]
    by (intro conjI ok g g') (simp_all only: stored td)
qed

theorem ldo_round_trip_witness:
  "500 \<le> (1250::int) \<and> 1250 \<le> channelMax DLDO2 \<and> 1250 = 500 + 15 * channelStep DLDO2
   \<and> \<not> w1c ic_reset (channelVoltReg DLDO2) \<and> \<not> w1c ic_reset (channelEnableReg DLDO2)
   \<and> uint (regs (snd (voltage_setpoint_set DLDO2 1250 ic_reset)) 0x9A) = 15
   \<and> fst (voltage_setpoint_get DLDO2 (snd (voltage_setpoint_set DLDO2 1250 ic_reset))) = Inr 1250"
proof -
  have h1: "500 \<le> (1250::int)" by simp
  have h2: "1250 \<le> channelMax DLDO2" by simp
  have h3: "1250 = 500 + 15 * channelStep DLDO2" by simp
  have h4: "\<not> w1c ic_reset (channelVoltReg DLDO2)" by (simp add: ic_reset_def)
  have h5: "\<not> w1c ic_reset (channelEnableReg DLDO2)" by (simp add: ic_reset_def)
  have t: "trunc_div (1250 - 500) (channelStep DLDO2) = 15" by (simp add: trunc_div_def)
  note w = ldo_round_trip [OF h1 h2 h3 h4 h5]
  have a: "uint (regs (snd (voltage_setpoint_set DLDO2 1250 ic_reset)) 0x9A) = 15"
    using w unfolding t by simp
  have b: "fst (voltage_setpoint_get DLDO2 (snd (voltage_setpoint_set DLDO2 1250 ic_reset))) = Inr 1250"
    using w by blast
  show ?thesis
    by (intro conjI h1 h2 h3 h4 h5 a b)
qed

section \<open>Disabling a regulator\<close>

lemma set_disabled_fst:
  assumes "0 \<le> v" "v < 500"
  shows "fst (voltage_setpoint_set C v s) = Inr ()"
  unfolding set_disabled [OF assms] by (rule set_bit_clear_fst) (rule uint_is_byte)

lemma set_disabled_trace:
  assumes "0 \<le> v" "v < 500"
  shows "trace (snd (voltage_setpoint_set C v s)) =
         trace s @ [BusWriteThenRead (channelEnableReg C) 1,
                    BusWrite (channelEnableReg C)
                      (regs s (channelEnableReg C) AND NOT (channelEnableMask C))]"
  unfolding set_disabled [OF assms] by (simp add: set_bit_clear_trace uint_is_byte)

lemma set_disabled_regs:
  assumes "0 \<le> v" "v < 500"
  shows "regs (snd (voltage_setpoint_set C v s)) =
     (regs s)(channelEnableReg C :=
        (if w1c s (channelEnableReg C)
         then regs s (channelEnableReg C) AND NOT (regs s (channelEnableReg C) AND NOT (channelEnableMask C))
         else regs s (channelEnableReg C) AND NOT (channelEnableMask C)))"
  unfolding set_disabled [OF assms] by (simp add: set_bit_clear_regs uint_is_byte)

text \<open>
  Claim C2. For every channel and every voltage from 1 to 499, setting the voltage does
  exactly what setting 0 does (same result, same final state): no error is raised, the
  only transactions are the read of the enable register and the write of that byte with
  the channel's enable bit cleared, the voltage register keeps its content, and where the
  enable register stores what is written the enable bit reads as clear afterwards.
\<close>

theorem ldo_below_minimum_disables:
  assumes "1 \<le> v" and "v \<le> 499"
  shows "voltage_setpoint_set C v s = voltage_setpoint_set C 0 s
     \<and> fst (voltage_setpoint_set C v s) = Inr ()
     \<and> trace (snd (voltage_setpoint_set C v s)) =
         trace s @ [BusWriteThenRead (channelEnableReg C) 1,
                    BusWrite (channelEnableReg C)
                      (regs s (channelEnableReg C) AND NOT (channelEnableMask C))]
     \<and> regs (snd (voltage_setpoint_set C v s)) (channelVoltReg C) = regs s (channelVoltReg C)
     \<and> (\<not> w1c s (channelEnableReg C) \<longrightarrow>
          regs (snd (voltage_setpoint_set C v s)) (channelEnableReg C) AND channelEnableMask C = 0)"
proof -
  have v: "0 \<le> v" "v < 500" using assms by simp_all
  have z: "(0::int) \<le> 0" "(0::int) < 500" by simp_all
  have same: "voltage_setpoint_set C v s = voltage_setpoint_set C 0 s"
    unfolding set_disabled [OF v] set_disabled [OF z] ..
  have volt: "regs (snd (voltage_setpoint_set C v s)) (channelVoltReg C) = regs s (channelVoltReg C)"
    unfolding set_disabled_regs [OF v] by (simp add: volt_reg_not_enable_reg)
  have en: "\<not> w1c s (channelEnableReg C) \<longrightarrow>
          regs (snd (voltage_setpoint_set C v s)) (channelEnableReg C) AND channelEnableMask C = 0"
    unfolding set_disabled_regs [OF v] by (simp add: and_not_and_same)
  show ?thesis
    by (intro conjI same set_disabled_fst [OF v] set_disabled_trace [OF v] volt en)
qed

theorem ldo_below_minimum_disables_witness:
  "1 \<le> (499::int) \<and> (499::int) \<le> 499
   \<and> \<not> w1c (with_reg 0x90 0xFF ic_reset) (channelEnableReg BLDO1)
   \<and> voltage_setpoint_set BLDO1 499 (with_reg 0x90 0xFF ic_reset) =
       voltage_setpoint_set BLDO1 0 (with_reg 0x90 0xFF ic_reset)
   \<and> trace (snd (voltage_setpoint_set BLDO1 499 (with_reg 0x90 0xFF ic_reset))) =
       [BusWriteThenRead 0x90 1, BusWrite 0x90 0xEF]
   \<and> regs (snd (voltage_setpoint_set BLDO1 499 (with_reg 0x90 0xFF ic_reset))) 0x90 AND 0x10 = 0"
proof -
  have h1: "1 \<le> (499::int)" by simp
  have h2: "(499::int) \<le> 499" by simp
  have h3: "\<not> w1c (with_reg 0x90 0xFF ic_reset) (channelEnableReg BLDO1)"
    by (simp add: with_reg_def ic_reset_def)
  note w = ldo_below_minimum_disables [OF h1 h2, of BLDO1 "with_reg 0x90 0xFF ic_reset"]
  have a: "voltage_setpoint_set BLDO1 499 (with_reg 0x90 0xFF ic_reset) =
       voltage_setpoint_set BLDO1 0 (with_reg 0x90 0xFF ic_reset)"
    using w by blast
  have "trace (snd (voltage_setpoint_set BLDO1 499 (with_reg 0x90 0xFF ic_reset))) =
         trace (with_reg 0x90 0xFF ic_reset) @ [BusWriteThenRead (channelEnableReg BLDO1) 1,
                    BusWrite (channelEnableReg BLDO1)
                      (regs (with_reg 0x90 0xFF ic_reset) (channelEnableReg BLDO1) AND NOT (channelEnableMask BLDO1))]"
    using w by blast
  then have b: "trace (snd (voltage_setpoint_set BLDO1 499 (with_reg 0x90 0xFF ic_reset))) =
       [BusWriteThenRead 0x90 1, BusWrite 0x90 0xEF]"
    by (simp add: with_reg_def ic_reset_def)
  have "regs (snd (voltage_setpoint_set BLDO1 499 (with_reg 0x90 0xFF ic_reset))) (channelEnableReg BLDO1)
          AND channelEnableMask BLDO1 = 0"
    using w h3 by blast
  then have c: "regs (snd (voltage_setpoint_set BLDO1 499 (with_reg 0x90 0xFF ic_reset))) 0x90 AND 0x10 = 0"
    by simp
  show ?thesis by (intro conjI h1 h2 h3 a b c)
qed

text \<open>
  Claim C3. For every channel and every state in which the channel's enable bit is clear,
  the getter returns 0 after reading the enable register only, whatever the voltage
  register holds. Setting the channel to 0 raises no error, reads the enable register and
  writes it back with the channel's enable bit cleared, leaves the voltage register as it
  was, and (the enable register storing what is written) the enable bit then reads as
  clear and the getter returns 0.
\<close>

theorem disabled_channel_reads_zero:
  "(regs s (channelEnableReg C) AND channelEnableMask C = 0 \<longrightarrow>
      fst (voltage_setpoint_get C s) = Inr 0
      \<and> trace (snd (voltage_setpoint_get C s)) = trace s @ [BusWriteThenRead (channelEnableReg C) 1])
   \<and> fst (voltage_setpoint_set C 0 s) = Inr ()
   \<and> trace (snd (voltage_setpoint_set C 0 s)) =
         trace s @ [BusWriteThenRead (channelEnableReg C) 1,
                    BusWrite (channelEnableReg C)
                      (regs s (channelEnableReg C) AND NOT (channelEnableMask C))]
   \<and> regs (snd (voltage_setpoint_set C 0 s)) (channelVoltReg C) = regs s (channelVoltReg C)
   \<and> (\<not> w1c s (channelEnableReg C) \<longrightarrow>
        regs (snd (voltage_setpoint_set C 0 s)) (channelEnableReg C) AND channelEnableMask C = 0
        \<and> fst (voltage_setpoint_get C (snd (voltage_setpoint_set C 0 s))) = Inr 0)"
proof -
  have z: "(0::int) \<le> 0" "(0::int) < 500" by simp_all
  have g: "regs s (channelEnableReg C) AND channelEnableMask C = 0 \<longrightarrow>
      fst (voltage_setpoint_get C s) = Inr 0
      \<and> trace (snd (voltage_setpoint_get C s)) = trace s @ [BusWriteThenRead (channelEnableReg C) 1]"
    by (simp add: get_fst get_trace)
  have volt: "regs (snd (voltage_setpoint_set C 0 s)) (channelVoltReg C) = regs s (channelVoltReg C)"
    unfolding set_disabled_regs [OF z] by (simp add: volt_reg_not_enable_reg)
  have en: "\<not> w1c s (channelEnableReg C) \<longrightarrow>
        regs (snd (voltage_setpoint_set C 0 s)) (channelEnableReg C) AND channelEnableMask C = 0
        \<and> fst (voltage_setpoint_get C (snd (voltage_setpoint_set C 0 s))) = Inr 0"
    unfolding get_fst set_disabled_regs [OF z] by (simp add: and_not_and_same)
  show ?thesis
    by (intro conjI g set_disabled_fst [OF z] set_disabled_trace [OF z] volt en)
qed

theorem disabled_channel_reads_zero_witness:
  "regs (with_reg 0x99 0x1D ic_reset) (channelEnableReg DLDO1) AND channelEnableMask DLDO1 = 0
   \<and> \<not> w1c (with_reg 0x99 0x1D ic_reset) (channelEnableReg DLDO1)
   \<and> regs (with_reg 0x99 0x1D ic_reset) (channelVoltReg DLDO1) = 0x1D
   \<and> fst (voltage_setpoint_get DLDO1 (with_reg 0x99 0x1D ic_reset)) = Inr 0
   \<and> fst (voltage_setpoint_get DLDO1
        (snd (voltage_setpoint_set DLDO1 0 (with_reg 0x99 0x1D ic_reset)))) = Inr 0"
proof -
  have h1: "regs (with_reg 0x99 0x1D ic_reset) (channelEnableReg DLDO1) AND channelEnableMask DLDO1 = 0"
    by (simp add: with_reg_def ic_reset_def)
  have h2: "\<not> w1c (with_reg 0x99 0x1D ic_reset) (channelEnableReg DLDO1)"
    by (simp add: with_reg_def ic_reset_def)
  have h3: "regs (with_reg 0x99 0x1D ic_reset) (channelVoltReg DLDO1) = 0x1D"
    by (simp add: with_reg_def ic_reset_def)
  note w = disabled_channel_reads_zero [of "with_reg 0x99 0x1D ic_reset" DLDO1]
  have a: "fst (voltage_setpoint_get DLDO1 (with_reg 0x99 0x1D ic_reset)) = Inr 0"
    using w h1 by blast
  have b: "fst (voltage_setpoint_get DLDO1
        (snd (voltage_setpoint_set DLDO1 0 (with_reg 0x99 0x1D ic_reset)))) = Inr 0"
    using w h2 by blast
  show ?thesis by (intro conjI h1 h2 h3 a b)
qed

section \<open>Rejected voltages\<close>

text \<open>
  Claim C4. For every channel and every voltage above the channel's maximum or below 0,
  the setter raises \<^verbatim>\<open>ValueError\<close> and leaves the whole state as it was: no bus
  transaction is issued, no register and no buffer byte changes.
\<close>

theorem ldo_out_of_range_rejected:
  assumes "channelMax C < v \<or> v < 0"
  shows "(\<exists>msg. fst (voltage_setpoint_set C v s) = Inl (ValueError msg))
     \<and> snd (voltage_setpoint_set C v s) = s"
  using assms by (cases C) (auto simp add: set_ldo_def set_dldo_def Let_def)

theorem ldo_out_of_range_rejected_witness:
  "(channelMax DLDO2 < 1401 \<or> (1401::int) < 0)
   \<and> voltage_setpoint_set DLDO2 1401 ic_reset =
       (Inl (ValueError ''LDO voltage out of range. Allowed range 0-1400 mV''), ic_reset)"
proof -
  have h: "channelMax DLDO2 < 1401 \<or> (1401::int) < 0" by simp
  note w = ldo_out_of_range_rejected [OF h, of ic_reset]
  have a: "fst (voltage_setpoint_set DLDO2 1401 ic_reset) =
       Inl (ValueError ''LDO voltage out of range. Allowed range 0-1400 mV'')"
    by (simp add: set_dldo_def)
  have b: "snd (voltage_setpoint_set DLDO2 1401 ic_reset) = ic_reset"
    using w by blast
  have "voltage_setpoint_set DLDO2 1401 ic_reset =
       (Inl (ValueError ''LDO voltage out of range. Allowed range 0-1400 mV''), ic_reset)"
    using a b by (simp add: prod_eq_iff)
  with h show ?thesis by blast
qed

section \<open>Order of the writes\<close>

lemma ldo_num_cases: "0 \<le> num \<Longrightarrow> num \<le> 5 \<Longrightarrow> num \<in> {0, 1, 2, 3, 4, 5::int}"
  by auto

lemma set_ldo_trace:
  assumes "0 \<le> num" "num \<le> 5" "500 \<le> v" "v \<le> 3500"
  shows "trace (snd (set_ldo num v s)) =
     trace s @ [BusWrite (word_of_int (num + 0x92)) (word_of_int ((v - 500) div 100)),
                BusWriteThenRead 0x90 1,
                BusWrite 0x90 (regs s 0x90 OR word_of_int (push_bit (nat num) 1))]"
proof -
  have b: "is_byte ((v - 500) div 100)" using code_is_byte [OF assms(3,4)] by simp
  from ldo_num_cases [OF assms(1,2)] show ?thesis
    using assms(3,4) b
    by (auto simp add: set_ldo_def Let_def write_register8_byte
        set_bit_in_register_set regs_device_write trace_device_write)
qed

lemma set_ldo_fst:
  assumes "0 \<le> num" "num \<le> 5" "500 \<le> v" "v \<le> 3500"
  shows "fst (set_ldo num v s) = Inr ()"
proof -
  have b: "is_byte ((v - 500) div 100)" using code_is_byte [OF assms(3,4)] by simp
  from ldo_num_cases [OF assms(1,2)] show ?thesis
    using assms(3,4) b
    by (auto simp add: set_ldo_def Let_def write_register8_byte set_bit_in_register_set)
qed

text \<open>
  Claim C9. Setting ALDO1 (channel 0) to 1800 mV computes the code
  \<open>(1800 - 500) div 100 = 13\<close>, succeeds, and issues in this order: the write of 13 to
  register \<open>0x92\<close>, the read of register \<open>0x90\<close>, the write of that byte with bit
  \<open>0x01\<close> set to register \<open>0x90\<close>. For every channel number from 0 to 5 and voltage
  from 500 to 3500, \<^verbatim>\<open>__set_ldo\<close> writes the code to register \<open>num + 0x92\<close> and then
  sets bit \<open>1 << num\<close> of register \<open>0x90\<close>.
\<close>

theorem set_ldo_voltage_then_enable:
  "(1800 - 500) div 100 = (13::int)
   \<and> fst (voltage_setpoint_set ALDO1 1800 s) = Inr ()
   \<and> trace (snd (voltage_setpoint_set ALDO1 1800 s)) =
       trace s @ [BusWrite 0x92 13, BusWriteThenRead 0x90 1, BusWrite 0x90 (regs s 0x90 OR 0x01)]
   \<and> (0 \<le> num \<and> num \<le> 5 \<and> 500 \<le> v \<and> v \<le> 3500 \<longrightarrow>
        fst (set_ldo num v s) = Inr ()
        \<and> trace (snd (set_ldo num v s)) =
            trace s @ [BusWrite (word_of_int (num + 0x92)) (word_of_int ((v - 500) div 100)),
                       BusWriteThenRead 0x90 1,
                       BusWrite 0x90 (regs s 0x90 OR word_of_int (push_bit (nat num) 1))])"
proof -
  have h: "(0::int) \<le> 0" "(0::int) \<le> 5" "(500::int) \<le> 1800" "(1800::int) \<le> 3500" by simp_all
  have a: "fst (voltage_setpoint_set ALDO1 1800 s) = Inr ()"
    using set_ldo_fst [OF h, of s] by simp
  have b: "trace (snd (voltage_setpoint_set ALDO1 1800 s)) =
       trace s @ [BusWrite 0x92 13, BusWriteThenRead 0x90 1, BusWrite 0x90 (regs s 0x90 OR 0x01)]"
    using set_ldo_trace [OF h, of s] by simp
  have c: "0 \<le> num \<and> num \<le> 5 \<and> 500 \<le> v \<and> v \<le> 3500 \<longrightarrow>
        fst (set_ldo num v s) = Inr ()
        \<and> trace (snd (set_ldo num v s)) =
            trace s @ [BusWrite (word_of_int (num + 0x92)) (word_of_int ((v - 500) div 100)),
                       BusWriteThenRead 0x90 1,
                       BusWrite 0x90 (regs s 0x90 OR word_of_int (push_bit (nat num) 1))]"
    using set_ldo_fst [of num v s] set_ldo_trace [of num v s] by blast
  have d: "(1800 - 500) div 100 = (13::int)" by simp
  show ?thesis by (intro conjI a b c d)
qed

theorem set_ldo_voltage_then_enable_witness:
  "(0::int) \<le> 5 \<and> (5::int) \<le> 5 \<and> (500::int) \<le> 3300 \<and> (3300::int) \<le> 3500
   \<and> trace (snd (set_ldo 5 3300 ic_reset)) =
       [BusWrite 0x97 28, BusWriteThenRead 0x90 1, BusWrite 0x90 0x20]"
proof -
  have h: "(0::int) \<le> 5 \<and> (5::int) \<le> 5 \<and> (500::int) \<le> 3300 \<and> (3300::int) \<le> 3500" by simp
  note w = set_ldo_voltage_then_enable [of ic_reset 5 3300]
  have "trace (snd (set_ldo 5 3300 ic_reset)) =
            trace ic_reset @ [BusWrite (word_of_int (5 + 0x92)) (word_of_int ((3300 - 500) div 100)),
                       BusWriteThenRead 0x90 1,
                       BusWrite 0x90 (regs ic_reset 0x90 OR word_of_int (push_bit (nat 5) 1))]"
    using w h by blast
  then have "trace (snd (set_ldo 5 3300 ic_reset)) =
       [BusWrite 0x97 28, BusWriteThenRead 0x90 1, BusWrite 0x90 0x20]"
    by (simp add: ic_reset_def)
  with h show ?thesis by blast
qed

section \<open>Bits outside the mask\<close>

lemma set_bit_in_register_frame:
  assumes "\<not> w1c s a" and "\<not> bit bitmask n"
  shows "bit (regs (snd (set_bit_in_register addr bitmask en s)) a) n = bit (regs s a) n"
proof (cases "is_byte addr")
  case False
  then show ?thesis by (simp add: set_bit_in_register_def)
next
  case True
  show ?thesis
  proof (cases "a = word_of_int addr")
    case False
    then show ?thesis
      using True by (simp add: set_bit_in_register_byte Let_def regs_device_write)
  next
    case eq: True
    have "bit (word_of_int (uint (regs s a) OR bitmask) :: u8) n = bit (regs s a) n"
      using assms(2) by (auto simp add: bit_simps dest: bit_imp_le_length)
    moreover have "bit (word_of_int (uint (regs s a) AND NOT bitmask) :: u8) n = bit (regs s a) n"
      using assms(2) by (auto simp add: bit_simps dest: bit_imp_le_length)
    ultimately show ?thesis
      using True assms(1) eq
      by (simp add: set_bit_in_register_byte Let_def regs_device_write)
  qed
qed

lemma set_enabled_steps:
  assumes "500 \<le> v" "v \<le> channelMax C"
  shows "voltage_setpoint_set C v s =
     set_bit_in_register (uint (channelEnableReg C)) (uint (channelEnableMask C)) True
       (snd (write_register8 (uint (channelVoltReg C)) ((v - 500) div channelStep C) s))"
  using assms code_is_byte [of v]
  by (cases C) (simp_all add: set_ldo_def set_dldo_def Let_def write_register8_byte)

lemma regs_write_register8_other:
  "a \<noteq> word_of_int r \<Longrightarrow> regs (snd (write_register8 r x s)) a = regs s a"
  by (simp add: write_register8_def regs_device_write Let_def)

lemma w1c_write_register8: "w1c (snd (write_register8 r x s)) = w1c s"
  by (simp add: write_register8_def w1c_device_write Let_def)

lemma set_frame:
  assumes "\<not> w1c s a" and "a \<noteq> channelVoltReg C"
    and "a \<noteq> channelEnableReg C \<or> \<not> bit (channelEnableMask C) n"
  shows "bit (regs (snd (voltage_setpoint_set C v s)) a) n = bit (regs s a) n"
proof -
  consider (err) "channelMax C < v \<or> v < 0" | (off) "0 \<le> v" "v < 500"
    | (on) "500 \<le> v" "v \<le> channelMax C"
    by linarith
  then show ?thesis
  proof cases
    case err
    then have "snd (voltage_setpoint_set C v s) = s"
      by (cases C) (auto simp add: set_ldo_def set_dldo_def Let_def)
    then show ?thesis by simp
  next
    case off
    show ?thesis
    proof (cases "a = channelEnableReg C")
      case True
      with assms(3) have "\<not> bit (uint (channelEnableMask C)) n" by (simp add: bit_simps)
      with assms(1) show ?thesis
        unfolding set_disabled [OF off] by (rule set_bit_in_register_frame)
    next
      case False
      then show ?thesis unfolding set_disabled_regs [OF off] by simp
    qed
  next
    case on
    let ?s1 = "snd (write_register8 (uint (channelVoltReg C)) ((v - 500) div channelStep C) s)"
    have r1: "regs ?s1 a = regs s a"
      using assms(2) by (simp add: regs_write_register8_other)
    have w1: "\<not> w1c ?s1 a" using assms(1) by (simp add: w1c_write_register8)
    show ?thesis
    proof (cases "a = channelEnableReg C")
      case True
      with assms(3) have "\<not> bit (uint (channelEnableMask C)) n" by (simp add: bit_simps)
      with w1 have "bit (regs (snd (set_bit_in_register (uint (channelEnableReg C))
          (uint (channelEnableMask C)) True ?s1)) a) n = bit (regs ?s1 a) n"
        by (rule set_bit_in_register_frame)
      then show ?thesis unfolding set_enabled_steps [OF on] r1 .
    next
      case False
      have "regs (snd (set_bit_in_register (uint (channelEnableReg C))
          (uint (channelEnableMask C)) True ?s1)) a = regs ?s1 a"
        using False uint_is_byte [of "channelEnableReg C"]
        by (simp add: set_bit_in_register_byte Let_def regs_device_write)
      then show ?thesis unfolding set_enabled_steps [OF on] r1 by simp
    qed
  qed
qed

lemma enable_masks_disjoint:
  "C \<noteq> C' \<Longrightarrow> channelEnableReg C = channelEnableReg C' \<Longrightarrow>
     channelEnableMask C AND channelEnableMask C' = 0"
  by (cases C; cases C') simp_all

text \<open>
  Claim C10. \<^verbatim>\<open>_set_bit_in_register\<close> leaves every bit outside the mask as it was, in
  every register that stores what is written (the addressed one included), for every
  state, address, mask and value. It is a read-modify-write: with an address that fits a
  byte it reads the register and, unless the new byte does not fit a byte, writes it back
  to the same register. Hence setting the voltage of one channel, whatever the voltage,
  never alters the enable bit of another channel in registers \<open>0x90\<close> and \<open>0x91\<close>.
\<close>

theorem enable_update_preserves_other_bits:
  "(\<not> w1c s a \<and> \<not> bit bitmask n \<longrightarrow>
      bit (regs (snd (set_bit_in_register addr bitmask en s)) a) n = bit (regs s a) n)
   \<and> (is_byte addr \<longrightarrow>
        trace (snd (set_bit_in_register addr bitmask en s)) =
          trace s @ BusWriteThenRead (word_of_int addr) 1 #
            (if is_byte (if en then uint (regs s (word_of_int addr)) OR bitmask
                         else uint (regs s (word_of_int addr)) AND NOT bitmask)
             then [BusWrite (word_of_int addr)
                     (word_of_int (if en then uint (regs s (word_of_int addr)) OR bitmask
                                   else uint (regs s (word_of_int addr)) AND NOT bitmask))]
             else []))
   \<and> (C \<noteq> C' \<and> \<not> w1c s (channelEnableReg C') \<longrightarrow>
        regs (snd (voltage_setpoint_set C v s)) (channelEnableReg C') AND channelEnableMask C' =
        regs s (channelEnableReg C') AND channelEnableMask C')"
proof -
  have p1: "\<not> w1c s a \<and> \<not> bit bitmask n \<longrightarrow>
      bit (regs (snd (set_bit_in_register addr bitmask en s)) a) n = bit (regs s a) n"
    using set_bit_in_register_frame [of s a bitmask n addr en] by blast
  have p2: "is_byte addr \<longrightarrow>
        trace (snd (set_bit_in_register addr bitmask en s)) =
          trace s @ BusWriteThenRead (word_of_int addr) 1 #
            (if is_byte (if en then uint (regs s (word_of_int addr)) OR bitmask
                         else uint (regs s (word_of_int addr)) AND NOT bitmask)
             then [BusWrite (word_of_int addr)
                     (word_of_int (if en then uint (regs s (word_of_int addr)) OR bitmask
                                   else uint (regs s (word_of_int addr)) AND NOT bitmask))]
             else [])"
    by (simp add: set_bit_in_register_byte Let_def trace_device_write)
  have p3: "C \<noteq> C' \<and> \<not> w1c s (channelEnableReg C') \<longrightarrow>
        regs (snd (voltage_setpoint_set C v s)) (channelEnableReg C') AND channelEnableMask C' =
        regs s (channelEnableReg C') AND channelEnableMask C'"
  proof (intro impI, elim conjE)
    assume ne: "C \<noteq> C'" and plain: "\<not> w1c s (channelEnableReg C')"
    have other: "channelEnableReg C' \<noteq> channelVoltReg C"
      using volt_reg_not_enable_reg [of C C'] by simp
    show "regs (snd (voltage_setpoint_set C v s)) (channelEnableReg C') AND channelEnableMask C' =
        regs s (channelEnableReg C') AND channelEnableMask C'"
    proof (rule bit_word_eqI)
      fix n assume "n < LENGTH(8)"
      show "bit (regs (snd (voltage_setpoint_set C v s)) (channelEnableReg C') AND channelEnableMask C') n
          = bit (regs s (channelEnableReg C') AND channelEnableMask C') n"
      proof (cases "bit (channelEnableMask C') n")
        case False
        then show ?thesis by (simp add: bit_and_iff)
      next
        case True
        have "channelEnableReg C' \<noteq> channelEnableReg C \<or> \<not> bit (channelEnableMask C) n"
        proof (cases "channelEnableReg C = channelEnableReg C'")
          case False
          then show ?thesis by simp
        next
          case same: True
          have "\<not> bit (channelEnableMask C AND channelEnableMask C') n"
            unfolding enable_masks_disjoint [OF ne same] by simp
          with True show ?thesis by (simp add: bit_and_iff)
        qed
        with plain other
        have "bit (regs (snd (voltage_setpoint_set C v s)) (channelEnableReg C')) n =
              bit (regs s (channelEnableReg C')) n"
          by (rule set_frame)
        then show ?thesis by (simp add: bit_and_iff)
      qed
    qed
  qed
  show ?thesis by (intro conjI p1 p2 p3)
qed

theorem enable_update_preserves_other_bits_witness:
  "\<not> w1c (with_reg 0x90 0xBF ic_reset) 0x90 \<and> \<not> bit (0x02::int) 7 \<and> is_byte 0x90
   \<and> ALDO2 \<noteq> DLDO1 \<and> \<not> w1c (with_reg 0x90 0xBF ic_reset) (channelEnableReg DLDO1)
   \<and> bit (regs (snd (set_bit_in_register 0x90 0x02 False (with_reg 0x90 0xBF ic_reset))) 0x90) 7
   \<and> trace (snd (set_bit_in_register 0x90 0x02 False (with_reg 0x90 0xBF ic_reset))) =
       [BusWriteThenRead 0x90 1, BusWrite 0x90 0xBD]
   \<and> regs (snd (voltage_setpoint_set ALDO2 0 (with_reg 0x90 0xBF ic_reset))) 0x90 AND 0x80 = 0x80"
proof -
  let ?s = "with_reg 0x90 0xBF ic_reset"
  have h1: "\<not> w1c ?s 0x90" by (simp add: with_reg_def ic_reset_def)
  have h2: "\<not> bit (0x02::int) 7" by simp
  have h3: "is_byte 0x90" by simp
  have h4: "ALDO2 \<noteq> DLDO1" by simp
  have h5: "\<not> w1c ?s (channelEnableReg DLDO1)" by (simp add: with_reg_def ic_reset_def)
  note w = enable_update_preserves_other_bits [of ?s "0x90" "0x02" 7 "0x90" False ALDO2 DLDO1 0]
  have "bit (regs (snd (set_bit_in_register 0x90 0x02 False ?s)) 0x90) 7 = bit (regs ?s 0x90) 7"
    using w h1 h2 by blast
  then have a: "bit (regs (snd (set_bit_in_register 0x90 0x02 False ?s)) 0x90) 7"
    by (simp add: with_reg_def ic_reset_def)
  have "trace (snd (set_bit_in_register 0x90 0x02 False ?s)) =
          trace ?s @ BusWriteThenRead (word_of_int 0x90) 1 #
            (if is_byte (if False then uint (regs ?s (word_of_int 0x90)) OR 0x02
                         else uint (regs ?s (word_of_int 0x90)) AND NOT 0x02)
             then [BusWrite (word_of_int 0x90)
                     (word_of_int (if False then uint (regs ?s (word_of_int 0x90)) OR 0x02
                                   else uint (regs ?s (word_of_int 0x90)) AND NOT 0x02))]
             else [])"
    using w h3 by blast
  then have b: "trace (snd (set_bit_in_register 0x90 0x02 False ?s)) =
       [BusWriteThenRead 0x90 1, BusWrite 0x90 0xBD]"
    by (simp add: with_reg_def ic_reset_def and_not_is_byte woi_and_not)
  have "regs (snd (voltage_setpoint_set ALDO2 0 ?s)) (channelEnableReg DLDO1) AND channelEnableMask DLDO1 =
        regs ?s (channelEnableReg DLDO1) AND channelEnableMask DLDO1"
    using w h4 h5 by blast
  then have c: "regs (snd (voltage_setpoint_set ALDO2 0 ?s)) 0x90 AND 0x80 = 0x80"
    by (simp add: with_reg_def ic_reset_def)
  show ?thesis by (intro conjI h1 h2 h3 h4 h5 a b c)
qed

end
